theory Spec2Isabelle
  imports Main
begin

section \<open>Run-time values\<close>

text \<open>
  Both composables are generic in the value they carry, and both branch on a run-time
  property of that value (\<^verbatim>\<open>!ctx\<close>, \<^verbatim>\<open>typeof value === 'function'\<close>), so the
  values are modelled with their run-time tag. Numbers are the integers and \<open>NaN\<close>: the
  only thing the code asks of a number is whether it is falsy, which is the case for zero
  and \<open>NaN\<close> only. An object is its identity (an address); a function is an identity too,
  and what it computes is looked up in a function environment.
\<close>

datatype jsval =
    JUndefined
  | JNull
  | JBool bool
  | JNum int
  | JNaN
  | JBigInt int
  | JStr string
  | JObj nat
  | JFun nat

text \<open>The \<^verbatim>\<open>typeof\<close> operator.\<close>

fun typeof :: "jsval \<Rightarrow> string" where
  "typeof JUndefined = ''undefined''"
| "typeof JNull = ''object''"
| "typeof (JBool b) = ''boolean''"
| "typeof (JNum n) = ''number''"
| "typeof JNaN = ''number''"
| "typeof (JBigInt n) = ''bigint''"
| "typeof (JStr s) = ''string''"
| "typeof (JObj a) = ''object''"
| "typeof (JFun f) = ''function''"

text \<open>The conversion to a boolean that \<^verbatim>\<open>!\<close> and \<^verbatim>\<open>? :\<close> apply to their operand.\<close>

fun truthy :: "jsval \<Rightarrow> bool" where
  "truthy JUndefined = False"
| "truthy JNull = False"
| "truthy (JBool b) = b"
| "truthy (JNum n) = (n \<noteq> 0)"
| "truthy JNaN = False"
| "truthy (JBigInt n) = (n \<noteq> 0)"
| "truthy (JStr s) = (s \<noteq> [])"
| "truthy (JObj a) = True"
| "truthy (JFun f) = True"

text \<open>The values that \<^verbatim>\<open>NonNullable\<close> excludes.\<close>

fun nullish :: "jsval \<Rightarrow> bool" where
  "nullish JUndefined = True"
| "nullish JNull = True"
| "nullish v = False"

datatype error = Error string | TypeError string

section \<open>useProvider\<close>

text \<open>
  Modelled from the spec: the host's ancestor-scope registry and its lookup
  \<^verbatim>\<open>inject\<close>, which are not part of this repository. The registry is the keyed
  mapping that the ancestors of the running component have published; a lookup with no
  default gives the published value, and \<^verbatim>\<open>undefined\<close> where nothing is published.
\<close>

type_synonym provides = "string \<rightharpoonup> jsval"

definition inject :: "provides \<Rightarrow> string \<Rightarrow> jsval" where
  "inject reg key = (case reg key of None \<Rightarrow> JUndefined | Some v \<Rightarrow> v)"

definition provider_message :: "string \<Rightarrow> string" where
  "provider_message providerKey =
     ''Incorrect use of provider '' @ providerKey @
     ''. You may have forgotten to wrap it in the corresponding component.''"

definition useProvider :: "provides \<Rightarrow> string \<Rightarrow> error + jsval" where
  "useProvider reg providerKey =
     (let ctx = inject reg providerKey
      in if \<not> truthy ctx then Inl (Error (provider_message providerKey))
         else Inr ctx)"

section \<open>useRefState\<close>

text \<open>
  The world that \<^verbatim>\<open>useRefState\<close> acts on: the reactive cells allocated so far, in the
  order of their allocation (a cell's address is its index), and the record of every
  call of an updater function, with the argument it was given.
\<close>

record world =
  cells :: "jsval list"
  calls :: "(nat \<times> jsval) list"

text \<open>What each function value computes when it is called with one argument.\<close>

type_synonym fenv = "nat \<Rightarrow> jsval \<Rightarrow> jsval"

text \<open>
  Modelled from the spec: the host's reactive-cell primitive \<^verbatim>\<open>ref\<close> (a boxed value
  with get and set) and its read-only view \<^verbatim>\<open>readonly\<close> (reads go to the cell,
  direct writes are blocked while the cell stays mutable from elsewhere). Change
  notification is the host's and is left out.
\<close>

datatype handle = Ref nat | ReadonlyRef nat

definition ref :: "jsval \<Rightarrow> world \<Rightarrow> nat \<times> world" where
  "ref v w = (length (cells w), w\<lparr>cells := cells w @ [v]\<rparr>)"

definition readonly :: "nat \<Rightarrow> handle" where
  "readonly state = ReadonlyRef state"

definition get_value :: "nat \<Rightarrow> world \<Rightarrow> jsval" where
  "get_value state w = (if state < length (cells w) then cells w ! state else JUndefined)"

definition set_value :: "nat \<Rightarrow> jsval \<Rightarrow> world \<Rightarrow> world" where
  "set_value state v w = w\<lparr>cells := (cells w)[state := v]\<rparr>"

text \<open>
  Modelled from the spec: reading \<^verbatim>\<open>h.value\<close> and the assignment
  \<^verbatim>\<open>h.value = v\<close> through a handle. The cell itself is written; the read-only view
  blocks the write and leaves the cell as it is.
\<close>

fun handle_get :: "handle \<Rightarrow> world \<Rightarrow> jsval" where
  "handle_get (Ref state) w = get_value state w"
| "handle_get (ReadonlyRef state) w = get_value state w"

fun handle_assign :: "handle \<Rightarrow> jsval \<Rightarrow> world \<Rightarrow> world" where
  "handle_assign (Ref state) v w = set_value state v w"
| "handle_assign (ReadonlyRef state) v w = w"

fun cell_of :: "handle \<Rightarrow> nat" where
  "cell_of (Ref state) = state"
| "cell_of (ReadonlyRef state) = state"

text \<open>
  Calling a value with one argument: a function computes its result and the call is
  recorded; anything else is not callable.
\<close>

fun call :: "fenv \<Rightarrow> jsval \<Rightarrow> jsval \<Rightarrow> world \<Rightarrow> error + (jsval \<times> world)" where
  "call \<phi> (JFun f) arg w = Inr (\<phi> f arg, w\<lparr>calls := calls w @ [(f, arg)]\<rparr>)"
| "call \<phi> v arg w = Inl (TypeError ''setter is not a function'')"

definition setterIsFunction :: "jsval \<Rightarrow> bool" where
  "setterIsFunction v = (typeof v = ''function'')"

text \<open>The closure \<^verbatim>\<open>setState\<close>, with the cell \<^verbatim>\<open>state\<close> that it captures.\<close>

definition setState :: "fenv \<Rightarrow> nat \<Rightarrow> jsval \<Rightarrow> world \<Rightarrow> error + world" where
  "setState \<phi> state setter w =
     (if setterIsFunction setter then
        (case call \<phi> setter (get_value state w) w of
           Inl e \<Rightarrow> Inl e
         | Inr (v, w') \<Rightarrow> Inr (set_value state v w'))
      else Inr (set_value state setter w))"

datatype setter = SetState nat

fun invoke :: "fenv \<Rightarrow> setter \<Rightarrow> jsval \<Rightarrow> world \<Rightarrow> error + world" where
  "invoke \<phi> (SetState state) arg w = setState \<phi> state arg w"

text \<open>
  \<^verbatim>\<open>useRefState(initialValue?, asReadonly = true)\<close>: an argument that is left out is
  \<open>None\<close>.
\<close>

definition useRefState ::
  "jsval option \<Rightarrow> bool option \<Rightarrow> world \<Rightarrow> (handle \<times> setter) \<times> world" where
  "useRefState initialValue asReadonly w =
     (let asReadonly' = (case asReadonly of None \<Rightarrow> True | Some b \<Rightarrow> b);
          (state, w') = ref (case initialValue of None \<Rightarrow> JUndefined | Some v \<Rightarrow> v) w
      in ((if asReadonly' then readonly state else Ref state, SetState state), w'))"

subsection \<open>Histories\<close>

text \<open>
  What a program can do with the composable and with what it returns: create another
  pair, assign through a handle, invoke a setter. A history is a list of such actions,
  run in order; it stops at the first error.
\<close>

datatype action =
    Create "jsval option" "bool option"
  | Assign handle jsval
  | Invoke setter jsval

fun step :: "fenv \<Rightarrow> action \<Rightarrow> world \<Rightarrow> error + world" where
  "step \<phi> (Create initialValue asReadonly) w = Inr (snd (useRefState initialValue asReadonly w))"
| "step \<phi> (Assign h v) w = Inr (handle_assign h v w)"
| "step \<phi> (Invoke s arg) w = invoke \<phi> s arg w"

fun run :: "fenv \<Rightarrow> action list \<Rightarrow> world \<Rightarrow> error + world" where
  "run \<phi> [] w = Inr w"
| "run \<phi> (a # as) w = (case step \<phi> a w of Inl e \<Rightarrow> Inl e | Inr w' \<Rightarrow> run \<phi> as w')"

text \<open>The mutations of one pair: through its setter, or by assignment through its handle.\<close>

datatype mutation = ViaSetter jsval | ViaHandle jsval

fun mutate :: "fenv \<Rightarrow> handle \<times> setter \<Rightarrow> mutation \<Rightarrow> world \<Rightarrow> error + world" where
  "mutate \<phi> (h, s) (ViaSetter arg) w = invoke \<phi> s arg w"
| "mutate \<phi> (h, s) (ViaHandle v) w = Inr (handle_assign h v w)"

fun mutate_all :: "fenv \<Rightarrow> handle \<times> setter \<Rightarrow> mutation list \<Rightarrow> world \<Rightarrow> error + world" where
  "mutate_all \<phi> p [] w = Inr w"
| "mutate_all \<phi> p (m # ms) w =
     (case mutate \<phi> p m w of Inl e \<Rightarrow> Inl e | Inr w' \<Rightarrow> mutate_all \<phi> p ms w')"

definition empty_world :: world where
  "empty_world = \<lparr>cells = [], calls = []\<rparr>"

text \<open>
  A function environment for the examples: every function is \<^verbatim>\<open>prev => prev + 1\<close> on
  numbers.
\<close>

definition example_fns :: fenv where
  "example_fns f prev = (case prev of JNum n \<Rightarrow> JNum (n + 1) | _ \<Rightarrow> JNaN)"

text \<open>
  A second one: every function is \<^verbatim>\<open>prev => g\<close>, where \<open>g\<close> is function \<open>1\<close>; so
  function \<open>1\<close> returns itself.
\<close>

definition returning_fns :: fenv where
  "returning_fns f prev = JFun 1"


section \<open>Properties of useProvider\<close>

lemma useProvider_fails_iff:
  "(\<exists>e. useProvider reg k = Inl e) \<longleftrightarrow> \<not> truthy (inject reg k)"
  by (simp add: useProvider_def Let_def)

lemma useProvider_single_error:
  "useProvider reg k = Inl e \<Longrightarrow> e = Error (provider_message k)"
  by (simp add: useProvider_def Let_def split: if_splits)

lemma useProvider_nullish_as_unpublished:
  "nullish v \<Longrightarrow> useProvider (reg(k \<mapsto> v)) k = useProvider (reg(k := None)) k"
  by (cases v) (simp_all add: useProvider_def inject_def)

lemma useProvider_truthy:
  "reg k = Some v \<Longrightarrow> truthy v \<Longrightarrow> useProvider reg k = Inr v"
  by (simp add: useProvider_def inject_def)

text \<open>
  Claim C1: every value published under a key that is neither null nor undefined is
  returned as it is. The code does not do so for the number zero: published under
  \<open>count\<close>, it is a value that is not nullish, and the lookup fails.
\<close>

theorem useProvider_zero_rejected:
  "\<not> nullish (JNum 0) \<and>
   useProvider [''count'' \<mapsto> JNum 0] ''count'' = Inl (Error (provider_message ''count''))"
  by (simp add: useProvider_def inject_def)

text \<open>
  Claim C2: the lookup fails exactly when nothing is published under the key, or null
  or undefined is. The code also fails where \<open>false\<close> is published: the key is
  published, its value is not nullish, and the result is the error.
\<close>

theorem useProvider_fails_on_published_false:
  "[''enabled'' \<mapsto> JBool False] ''enabled'' = Some (JBool False) \<and>
   \<not> nullish (JBool False) \<and>
   (\<exists>e. useProvider [''enabled'' \<mapsto> JBool False] ''enabled'' = Inl e)"
  by (simp add: useProvider_def inject_def)

text \<open>
  Claim C3: a published value that is falsy and neither null nor undefined makes the
  lookup raise the not-found error, since the check is the falsiness test \<^verbatim>\<open>!ctx\<close>.
  These values are \<open>false\<close>, zero, \<open>NaN\<close>, the zero big integer and the empty string.
\<close>

theorem useProvider_falsy_rejected:
  assumes "reg k = Some v" and "\<not> nullish v" and "\<not> truthy v"
  shows "useProvider reg k = Inl (Error (provider_message k)) \<and>
         v \<in> {JBool False, JNum 0, JNaN, JBigInt 0, JStr []}"
proof
  from assms(1,3) show "useProvider reg k = Inl (Error (provider_message k))"
    by (simp add: useProvider_def inject_def)
  from assms(2,3) show "v \<in> {JBool False, JNum 0, JNaN, JBigInt 0, JStr []}"
    by (cases v) simp_all
qed

theorem useProvider_falsy_rejected_witness:
  "[''title'' \<mapsto> JStr []] ''title'' = Some (JStr []) \<and> \<not> nullish (JStr []) \<and> \<not> truthy (JStr []) \<and>
   useProvider [''title'' \<mapsto> JStr []] ''title'' = Inl (Error (provider_message ''title''))"
proof -
  have a: "[''title'' \<mapsto> JStr []] ''title'' = Some (JStr [])" by simp
  have b: "\<not> nullish (JStr [])" by simp
  have c: "\<not> truthy (JStr [])" by simp
  from useProvider_falsy_rejected [of "[''title'' \<mapsto> JStr []]" "''title''" "JStr []"] a b c
  show ?thesis by blast
qed

section \<open>Properties of useRefState\<close>

subsection \<open>The cell of a pair, and what leaves the other cells alone\<close>

text \<open>
  The setter never fails (its call is guarded by the test that the argument is a
  function), no action removes a cell, and so the cell of a pair stays allocated in
  every later world.
\<close>

lemma useRefState_shape:
  assumes "useRefState i r w = ((h, s), w')"
  shows "cell_of h = length (cells w)"
    and "s = SetState (length (cells w))"
    and "w' = w\<lparr>cells := cells w @ [case i of None \<Rightarrow> JUndefined | Some v \<Rightarrow> v]\<rparr>"
    and "h = (if (case r of None \<Rightarrow> True | Some b \<Rightarrow> b)
              then ReadonlyRef (length (cells w)) else Ref (length (cells w)))"
  using assms by (auto simp: useRefState_def ref_def readonly_def Let_def split: if_splits)

lemma setterIsFunction_iff: "setterIsFunction x \<longleftrightarrow> (\<exists>f. x = JFun f)"
  by (cases x) (simp_all add: setterIsFunction_def)

lemma setState_function:
  "setState \<phi> a (JFun f) w =
     Inr (set_value a (\<phi> f (get_value a w)) (w\<lparr>calls := calls w @ [(f, get_value a w)]\<rparr>))"
  by (simp add: setState_def setterIsFunction_def)

lemma setState_literal:
  "\<not> setterIsFunction x \<Longrightarrow> setState \<phi> a x w = Inr (set_value a x w)"
  by (simp add: setState_def)

lemma setState_total: "\<exists>w'. setState \<phi> a x w = Inr w' \<and> length (cells w') = length (cells w)"
proof (cases "setterIsFunction x")
  case True
  then obtain f where "x = JFun f" by (auto simp: setterIsFunction_iff)
  then show ?thesis by (simp add: setState_function set_value_def)
next
  case False
  then show ?thesis by (simp add: setState_literal set_value_def)
qed

lemma handle_assign_length: "length (cells (handle_assign h v w)) = length (cells w)"
  by (cases h) (simp_all add: set_value_def)

lemma step_total: "\<exists>w'. step \<phi> a w = Inr w' \<and> length (cells w) \<le> length (cells w')"
proof (cases a)
  case (Create i r)
  then show ?thesis by (simp add: useRefState_def ref_def Let_def)
next
  case (Assign h v)
  then show ?thesis by (simp add: handle_assign_length)
next
  case (Invoke s x)
  obtain a' where "s = SetState a'" by (cases s)
  with Invoke setState_total [of \<phi> a' x w] show ?thesis by auto
qed

lemma run_total: "\<exists>w'. run \<phi> as w = Inr w' \<and> length (cells w) \<le> length (cells w')"
proof (induction as arbitrary: w)
  case Nil
  then show ?case by simp
next
  case (Cons a as)
  obtain w1 where w1: "step \<phi> a w = Inr w1" "length (cells w) \<le> length (cells w1)"
    using step_total by blast
  obtain w2 where "run \<phi> as w1 = Inr w2" "length (cells w1) \<le> length (cells w2)"
    using Cons.IH by blast
  with w1 show ?case by auto
qed

lemma run_length: "run \<phi> as w = Inr w' \<Longrightarrow> length (cells w) \<le> length (cells w')"
  using run_total [of \<phi> as w] by auto

lemma created_cell_live:
  assumes "useRefState i r w0 = ((h, s), w1)" and "run \<phi> as w1 = Inr w"
  shows "cell_of h < length (cells w)" and "s = SetState (cell_of h)"
proof -
  from assms(1) have "length (cells w1) = Suc (cell_of h)"
    using useRefState_shape(1,3) by fastforce
  with run_length [OF assms(2)] show "cell_of h < length (cells w)" by simp
  from assms(1) show "s = SetState (cell_of h)"
    using useRefState_shape(1,2) by fastforce
qed

lemma handle_get_cell: "handle_get h w = get_value (cell_of h) w"
  by (cases h) simp_all

lemma get_set_same: "a < length (cells w) \<Longrightarrow> get_value a (set_value a v w) = v"
  by (simp add: get_value_def set_value_def)

lemma get_set_other: "a \<noteq> b \<Longrightarrow> get_value a (set_value b v w) = get_value a w"
  by (simp add: get_value_def set_value_def)



lemma get_value_calls: "get_value a (w\<lparr>calls := cs\<rparr>) = get_value a w"
  by (simp add: get_value_def)

lemma setState_frame:
  "b \<noteq> a \<Longrightarrow> \<exists>w'. setState \<phi> a x w = Inr w' \<and> get_value b w' = get_value b w"
proof (cases "setterIsFunction x")
  case True
  assume "b \<noteq> a"
  moreover from True obtain f where "x = JFun f" by (auto simp: setterIsFunction_iff)
  ultimately show ?thesis
    by (simp add: setState_function get_set_other get_value_calls)
next
  case False
  assume "b \<noteq> a"
  with False show ?thesis
    by (simp add: setState_literal get_set_other)
qed

lemma handle_assign_frame:
  "b \<noteq> cell_of h \<Longrightarrow> get_value b (handle_assign h v w) = get_value b w"
  by (cases h) (simp_all add: get_set_other)

lemma mutate_frame:
  assumes "s = SetState (cell_of h)" and "b \<noteq> cell_of h"
  shows "\<exists>w'. mutate \<phi> (h, s) m w = Inr w' \<and> get_value b w' = get_value b w"
proof (cases m)
  case (ViaSetter x)
  with assms setState_frame [of b "cell_of h" \<phi> x w] show ?thesis by simp
next
  case (ViaHandle v)
  with assms show ?thesis by (simp add: handle_assign_frame)
qed

lemma mutate_all_frame:
  assumes "s = SetState (cell_of h)" and "b \<noteq> cell_of h"
  shows "\<exists>w'. mutate_all \<phi> (h, s) ms w = Inr w' \<and> get_value b w' = get_value b w"
proof (induction ms arbitrary: w)
  case Nil
  show ?case by simp
next
  case (Cons m ms)
  obtain w1 where w1: "mutate \<phi> (h, s) m w = Inr w1" "get_value b w1 = get_value b w"
    using mutate_frame [OF assms] by blast
  obtain w2 where "mutate_all \<phi> (h, s) ms w1 = Inr w2" "get_value b w2 = get_value b w1"
    using Cons.IH by blast
  with w1 show ?case by simp
qed

subsection \<open>The claims about the setter, the handle and the cell\<close>



text \<open>
  Claim C5: at any time after a pair was created, invoking its setter with a function
  \<open>f\<close> makes the handle read \<open>f c\<close>, where \<open>c\<close> is the value read before; the only
  cell written is the pair's, in one write, and exactly one call is recorded, of
  \<open>f\<close> on \<open>c\<close>.
\<close>

theorem setter_updater_applies_once:
  assumes "useRefState i r w0 = ((h, s), w1)"
      and "run \<phi> as w1 = Inr w"
  shows "\<exists>w'. invoke \<phi> s (JFun f) w = Inr w' \<and>
              handle_get h w' = \<phi> f (handle_get h w) \<and>
              cells w' = (cells w)[cell_of h := \<phi> f (handle_get h w)] \<and>
              calls w' = calls w @ [(f, handle_get h w)]"
proof -
  from created_cell_live [OF assms]
  have live: "cell_of h < length (cells w)" and s: "s = SetState (cell_of h)" .
  let ?c = "handle_get h w"
  let ?w' = "set_value (cell_of h) (\<phi> f ?c) (w\<lparr>calls := calls w @ [(f, ?c)]\<rparr>)"
  have c: "get_value (cell_of h) w = ?c"
    by (simp add: handle_get_cell)
  from s have "invoke \<phi> s (JFun f) w = Inr ?w'"
    by (simp add: setState_function c)
  moreover from live have "handle_get h ?w' = \<phi> f ?c"
    by (simp add: handle_get_cell get_value_def set_value_def)
  moreover have "cells ?w' = (cells w)[cell_of h := \<phi> f ?c]"
    by (simp add: set_value_def)
  moreover have "calls ?w' = calls w @ [(f, ?c)]"
    by (simp add: set_value_def)
  ultimately show ?thesis by blast
qed

theorem setter_updater_applies_once_witness:
  "useRefState (Some (JNum 1)) None empty_world
     = ((ReadonlyRef 0, SetState 0), \<lparr>cells = [JNum 1], calls = []\<rparr>) \<and>
   run example_fns [] \<lparr>cells = [JNum 1], calls = []\<rparr> = Inr \<lparr>cells = [JNum 1], calls = []\<rparr> \<and>
   (\<exists>w'. invoke example_fns (SetState 0) (JFun 0) \<lparr>cells = [JNum 1], calls = []\<rparr> = Inr w' \<and>
         handle_get (ReadonlyRef 0) w' = JNum 2 \<and> cells w' = [JNum 2] \<and>
         calls w' = [(0, JNum 1)])"
proof -
  have a: "useRefState (Some (JNum 1)) None empty_world
             = ((ReadonlyRef 0, SetState 0), \<lparr>cells = [JNum 1], calls = []\<rparr>)"
    by (simp add: useRefState_def ref_def readonly_def empty_world_def)
  have b: "run example_fns [] \<lparr>cells = [JNum 1], calls = []\<rparr> = Inr \<lparr>cells = [JNum 1], calls = []\<rparr>"
    by simp
  from setter_updater_applies_once [OF a b, of 0] a b show ?thesis
    by (simp add: get_value_def example_fns_def)
qed

text \<open>
  Claim C6: the setter chooses between its two forms by the run-time test
  \<^verbatim>\<open>typeof value === 'function'\<close> alone, every callable argument is treated as an
  updater, and so the cell can never be made to hold a function-typed literal through
  the setter. The last part fails on the code: the cell receives whatever the updater
  returns. With functions that return function \<open>1\<close>, a cell created with the number one
  holds a function after the setter was given function \<open>0\<close>, and after the setter was
  given function \<open>1\<close> it holds that very argument, the cells being those that storing
  the argument as a literal would leave.
\<close>

theorem setter_stores_function_counterexample:
  "useRefState (Some (JNum 1)) None empty_world
     = ((ReadonlyRef 0, SetState 0), \<lparr>cells = [JNum 1], calls = []\<rparr>) \<and>
   setterIsFunction (JFun 0) \<and>
   invoke returning_fns (SetState 0) (JFun 0) \<lparr>cells = [JNum 1], calls = []\<rparr>
     = Inr \<lparr>cells = [JFun 1], calls = [(0, JNum 1)]\<rparr> \<and>
   typeof (handle_get (ReadonlyRef 0) \<lparr>cells = [JFun 1], calls = [(0, JNum 1)]\<rparr>) = ''function'' \<and>
   setterIsFunction (JFun 1) \<and>
   invoke returning_fns (SetState 0) (JFun 1) \<lparr>cells = [JNum 1], calls = []\<rparr>
     = Inr \<lparr>cells = [JFun 1], calls = [(1, JNum 1)]\<rparr> \<and>
   handle_get (ReadonlyRef 0) \<lparr>cells = [JFun 1], calls = [(1, JNum 1)]\<rparr> = JFun 1 \<and>
   cells (set_value 0 (JFun 1) \<lparr>cells = [JNum 1], calls = []\<rparr>) = [JFun 1]"
  by (simp add: useRefState_def ref_def readonly_def empty_world_def setState_def
      setterIsFunction_def set_value_def get_value_def returning_fns_def)

text \<open>
  Claim C6, amended: the setter chooses between its two forms by the run-time test
  \<^verbatim>\<open>typeof value === 'function'\<close> alone. An argument that passes it is a function and is
  always called as an updater, with the current value of the cell: the call is recorded
  and the cell holds the result of the call, whatever that is. An argument that fails
  the test is stored and the cell holds it.
\<close>

theorem setter_branch_by_typeof:
  "(typeof x = ''function'' \<longrightarrow>
      (\<exists>f. x = JFun f \<and>
           setState \<phi> a x w =
             Inr (set_value a (\<phi> f (get_value a w)) (w\<lparr>calls := calls w @ [(f, get_value a w)]\<rparr>)) \<and>
           (a < length (cells w) \<longrightarrow>
              get_value a (set_value a (\<phi> f (get_value a w))
                             (w\<lparr>calls := calls w @ [(f, get_value a w)]\<rparr>))
                = \<phi> f (get_value a w)))) \<and>
   (typeof x \<noteq> ''function'' \<longrightarrow>
      setState \<phi> a x w = Inr (set_value a x w) \<and>
      (a < length (cells w) \<longrightarrow> get_value a (set_value a x w) = x))"
proof (cases "setterIsFunction x")
  case True
  then obtain f where x: "x = JFun f" by (auto simp: setterIsFunction_iff)
  have "a < length (cells w) \<longrightarrow>
          get_value a (set_value a (\<phi> f (get_value a w))
                         (w\<lparr>calls := calls w @ [(f, get_value a w)]\<rparr>))
            = \<phi> f (get_value a w)"
    by (simp add: get_value_def set_value_def)
  with x show ?thesis
    by (simp add: setState_function)
next
  case False
  then have "typeof x \<noteq> ''function''"
    by (simp add: setterIsFunction_def)
  with False show ?thesis
    by (simp add: setState_literal get_set_same)
qed

theorem setter_branch_by_typeof_witness:
  "typeof (JFun 0) = ''function'' \<and>
   (0::nat) < length (cells \<lparr>cells = [JNum 1], calls = []\<rparr>) \<and>
   setState example_fns 0 (JFun 0) \<lparr>cells = [JNum 1], calls = []\<rparr>
     = Inr \<lparr>cells = [JNum 2], calls = [(0, JNum 1)]\<rparr> \<and>
   get_value 0 \<lparr>cells = [JNum 2], calls = [(0, JNum 1)]\<rparr> = JNum 2 \<and>
   typeof (JStr ''f'') \<noteq> ''function'' \<and>
   setState example_fns 0 (JStr ''f'') \<lparr>cells = [JNum 1], calls = []\<rparr>
     = Inr \<lparr>cells = [JStr ''f''], calls = []\<rparr> \<and>
   get_value 0 \<lparr>cells = [JStr ''f''], calls = []\<rparr> = JStr ''f''"
  using setter_branch_by_typeof [of "JFun 0" example_fns 0 "\<lparr>cells = [JNum 1], calls = []\<rparr>"]
        setter_branch_by_typeof [of "JStr ''f''" example_fns 0 "\<lparr>cells = [JNum 1], calls = []\<rparr>"]
  by (simp add: set_value_def get_value_def example_fns_def)

text \<open>
  Claim C7: the handle and the setter of one pair are on the same cell. At any time
  after the creation and in either access mode, what the setter writes (the result of
  an updater, or a literal) is what the handle reads next. In mutable mode a value
  assigned through the handle is read back through the handle, and is the previous
  value that the setter passes to the next updater.
\<close>

theorem handle_and_setter_share_cell:
  assumes "useRefState i r w0 = ((h, s), w1)"
      and "run \<phi> as w1 = Inr w"
  shows "s = SetState (cell_of h) \<and>
         (\<exists>w'. invoke \<phi> s (JFun g) w = Inr w' \<and> handle_get h w' = \<phi> g (handle_get h w)) \<and>
         (\<not> setterIsFunction y \<longrightarrow> (\<exists>w'. invoke \<phi> s y w = Inr w' \<and> handle_get h w' = y)) \<and>
         (r = Some False \<longrightarrow>
            handle_get h (handle_assign h v w) = v \<and>
            (\<exists>w'. invoke \<phi> s (JFun f) (handle_assign h v w) = Inr w' \<and>
                  calls w' = calls w @ [(f, v)] \<and> handle_get h w' = \<phi> f v))"
proof -
  from created_cell_live [OF assms]
  have live: "cell_of h < length (cells w)" and s: "s = SetState (cell_of h)" .
  let ?a = "cell_of h"
  have upd: "\<exists>w'. invoke \<phi> s (JFun g) w = Inr w' \<and> handle_get h w' = \<phi> g (handle_get h w)"
    using live s by (simp add: setState_function handle_get_cell get_value_def set_value_def)
  have lit: "\<not> setterIsFunction y \<longrightarrow> (\<exists>w'. invoke \<phi> s y w = Inr w' \<and> handle_get h w' = y)"
    using live s by (simp add: setState_literal handle_get_cell get_set_same)
  have mut: "r = Some False \<longrightarrow>
            handle_get h (handle_assign h v w) = v \<and>
            (\<exists>w'. invoke \<phi> s (JFun f) (handle_assign h v w) = Inr w' \<and>
                  calls w' = calls w @ [(f, v)] \<and> handle_get h w' = \<phi> f v)"
  proof
    assume "r = Some False"
    with assms(1) have h: "h = Ref ?a"
      using useRefState_shape(1,4) by fastforce
    have "handle_assign h v w = set_value ?a v w"
      by (subst h) simp
    with live s show "handle_get h (handle_assign h v w) = v \<and>
            (\<exists>w'. invoke \<phi> s (JFun f) (handle_assign h v w) = Inr w' \<and>
                  calls w' = calls w @ [(f, v)] \<and> handle_get h w' = \<phi> f v)"
      by (simp add: setState_function handle_get_cell get_value_def set_value_def)
  qed
  from s upd lit mut show ?thesis by blast
qed

theorem handle_and_setter_share_cell_witness:
  "useRefState (Some (JNum 1)) (Some False) empty_world
     = ((Ref 0, SetState 0), \<lparr>cells = [JNum 1], calls = []\<rparr>) \<and>
   run example_fns [Assign (Ref 0) (JNum 7)] \<lparr>cells = [JNum 1], calls = []\<rparr>
     = Inr \<lparr>cells = [JNum 7], calls = []\<rparr> \<and>
   \<not> setterIsFunction (JStr ''x'') \<and>
   (\<exists>w'. invoke example_fns (SetState 0) (JFun 0) \<lparr>cells = [JNum 7], calls = []\<rparr> = Inr w' \<and>
         handle_get (Ref 0) w' = JNum 8) \<and>
   (\<exists>w'. invoke example_fns (SetState 0) (JStr ''x'') \<lparr>cells = [JNum 7], calls = []\<rparr> = Inr w' \<and>
         handle_get (Ref 0) w' = JStr ''x'') \<and>
   handle_get (Ref 0) (handle_assign (Ref 0) (JNum 40) \<lparr>cells = [JNum 7], calls = []\<rparr>) = JNum 40 \<and>
   (\<exists>w'. invoke example_fns (SetState 0) (JFun 0)
           (handle_assign (Ref 0) (JNum 40) \<lparr>cells = [JNum 7], calls = []\<rparr>) = Inr w' \<and>
         calls w' = [(0, JNum 40)] \<and> handle_get (Ref 0) w' = JNum 41)"
proof -
  have a: "useRefState (Some (JNum 1)) (Some False) empty_world
             = ((Ref 0, SetState 0), \<lparr>cells = [JNum 1], calls = []\<rparr>)"
    by (simp add: useRefState_def ref_def empty_world_def)
  have b: "run example_fns [Assign (Ref 0) (JNum 7)] \<lparr>cells = [JNum 1], calls = []\<rparr>
             = Inr \<lparr>cells = [JNum 7], calls = []\<rparr>"
    by (simp add: set_value_def)
  have c: "\<not> setterIsFunction (JStr ''x'')"
    by (simp add: setterIsFunction_def)
  from handle_and_setter_share_cell [OF a b, of 0 "JStr ''x''" "JNum 40" 0] a b c
  show ?thesis
    by (simp add: get_value_def example_fns_def)
qed

text \<open>
  Claim C8: the handle of a pair created with an initial value reads that value right
  after the creation, and it reads \<^verbatim>\<open>undefined\<close> when the pair is created without
  one; in either access mode and in any world.
\<close>

theorem useRefState_initial_value:
  "handle_get (fst (fst (useRefState (Some x) r w))) (snd (useRefState (Some x) r w)) = x \<and>
   handle_get (fst (fst (useRefState None r w))) (snd (useRefState None r w)) = JUndefined"
  by (simp add: useRefState_def ref_def readonly_def get_value_def split: option.split)

text \<open>
  Claim C9: two pairs from two invocations, with any history between and after the
  invocations, have independent cells: any sequence of mutations of one pair, through
  its setter or by assignment through its handle, runs to its end and leaves the value
  read through the other pair's handle as it was.
\<close>

theorem independent_cells:
  assumes "useRefState i1 r1 w0 = ((h1, s1), w1)"
      and "run \<phi> as1 w1 = Inr w1'"
      and "useRefState i2 r2 w1' = ((h2, s2), w2)"
      and "run \<phi> as2 w2 = Inr w"
  shows "(\<exists>w'. mutate_all \<phi> (h1, s1) ms1 w = Inr w' \<and> handle_get h2 w' = handle_get h2 w) \<and>
         (\<exists>w'. mutate_all \<phi> (h2, s2) ms2 w = Inr w' \<and> handle_get h1 w' = handle_get h1 w)"
proof -
  from assms(1) have c1: "cell_of h1 = length (cells w0)" "length (cells w1) = Suc (length (cells w0))"
    and s1: "s1 = SetState (cell_of h1)"
    using useRefState_shape(1,2,3) by fastforce+
  from assms(3) have c2: "cell_of h2 = length (cells w1')" and s2: "s2 = SetState (cell_of h2)"
    using useRefState_shape(1,2) by fastforce+
  from run_length [OF assms(2)] c1 c2 have ne: "cell_of h1 \<noteq> cell_of h2" by simp
  from mutate_all_frame [OF s1, of "cell_of h2" \<phi> ms1 w] ne
  have "\<exists>w'. mutate_all \<phi> (h1, s1) ms1 w = Inr w' \<and> handle_get h2 w' = handle_get h2 w"
    by (simp add: handle_get_cell)
  moreover from mutate_all_frame [OF s2, of "cell_of h1" \<phi> ms2 w] ne
  have "\<exists>w'. mutate_all \<phi> (h2, s2) ms2 w = Inr w' \<and> handle_get h1 w' = handle_get h1 w"
    by (simp add: handle_get_cell)
  ultimately show ?thesis by blast
qed

theorem independent_cells_witness:
  "useRefState (Some (JNum 1)) None empty_world
     = ((ReadonlyRef 0, SetState 0), \<lparr>cells = [JNum 1], calls = []\<rparr>) \<and>
   run example_fns [Invoke (SetState 0) (JFun 0)] \<lparr>cells = [JNum 1], calls = []\<rparr>
     = Inr \<lparr>cells = [JNum 2], calls = [(0, JNum 1)]\<rparr> \<and>
   useRefState (Some (JStr ''a'')) (Some False) \<lparr>cells = [JNum 2], calls = [(0, JNum 1)]\<rparr>
     = ((Ref 1, SetState 1), \<lparr>cells = [JNum 2, JStr ''a''], calls = [(0, JNum 1)]\<rparr>) \<and>
   run example_fns [] \<lparr>cells = [JNum 2, JStr ''a''], calls = [(0, JNum 1)]\<rparr>
     = Inr \<lparr>cells = [JNum 2, JStr ''a''], calls = [(0, JNum 1)]\<rparr> \<and>
   (\<exists>w'. mutate_all example_fns (ReadonlyRef 0, SetState 0)
           [ViaSetter (JFun 0), ViaHandle (JNum 9), ViaSetter (JNum 4)]
           \<lparr>cells = [JNum 2, JStr ''a''], calls = [(0, JNum 1)]\<rparr> = Inr w' \<and>
         handle_get (Ref 1) w' = JStr ''a'') \<and>
   (\<exists>w'. mutate_all example_fns (Ref 1, SetState 1)
           [ViaHandle (JNum 9), ViaSetter (JFun 0)]
           \<lparr>cells = [JNum 2, JStr ''a''], calls = [(0, JNum 1)]\<rparr> = Inr w' \<and>
         handle_get (ReadonlyRef 0) w' = JNum 2)"
proof -
  have a: "useRefState (Some (JNum 1)) None empty_world
             = ((ReadonlyRef 0, SetState 0), \<lparr>cells = [JNum 1], calls = []\<rparr>)"
    by (simp add: useRefState_def ref_def readonly_def empty_world_def)
  have b: "run example_fns [Invoke (SetState 0) (JFun 0)] \<lparr>cells = [JNum 1], calls = []\<rparr>
             = Inr \<lparr>cells = [JNum 2], calls = [(0, JNum 1)]\<rparr>"
    by (simp add: setState_def setterIsFunction_def set_value_def get_value_def example_fns_def)
  have c: "useRefState (Some (JStr ''a'')) (Some False) \<lparr>cells = [JNum 2], calls = [(0, JNum 1)]\<rparr>
             = ((Ref 1, SetState 1), \<lparr>cells = [JNum 2, JStr ''a''], calls = [(0, JNum 1)]\<rparr>)"
    by (simp add: useRefState_def ref_def)
  have d: "run example_fns [] \<lparr>cells = [JNum 2, JStr ''a''], calls = [(0, JNum 1)]\<rparr>
             = Inr \<lparr>cells = [JNum 2, JStr ''a''], calls = [(0, JNum 1)]\<rparr>"
    by simp
  have e: "handle_get (Ref 1) \<lparr>cells = [JNum 2, JStr ''a''], calls = [(0, JNum 1)]\<rparr> = JStr ''a''"
          "handle_get (ReadonlyRef 0) \<lparr>cells = [JNum 2, JStr ''a''], calls = [(0, JNum 1)]\<rparr> = JNum 2"
    by (simp_all add: get_value_def)
  from independent_cells [OF a b c d,
      of "[ViaSetter (JFun 0), ViaHandle (JNum 9), ViaSetter (JNum 4)]"
         "[ViaHandle (JNum 9), ViaSetter (JFun 0)]"]
  show ?thesis
    unfolding e using a b c d by blast
qed

text \<open>
  Claim C10: a pair created in read-only mode (the flag left out, or true) ignores an
  assignment through its handle: the world is unchanged, the handle reads the value it
  read before, and the setter behaves as if the assignment had not taken place.
\<close>

theorem readonly_assignment_ignored:
  assumes "useRefState i r w0 = ((h, s), w1)"
      and "r = None \<or> r = Some True"
  shows "handle_assign h v w = w \<and>
         handle_get h (handle_assign h v w) = handle_get h w \<and>
         invoke \<phi> s x (handle_assign h v w) = invoke \<phi> s x w"
proof -
  from assms have "h = ReadonlyRef (length (cells w0))"
    using useRefState_shape(4) by fastforce
  then have "handle_assign h v w = w" by simp
  then show ?thesis by simp
qed


theorem readonly_assignment_ignored_witness:
  "useRefState (Some (JNum 42)) None empty_world
     = ((ReadonlyRef 0, SetState 0), \<lparr>cells = [JNum 42], calls = []\<rparr>) \<and>
   ((None :: bool option) = None \<or> (None :: bool option) = Some True) \<and>
   handle_assign (ReadonlyRef 0) (JNum 100) \<lparr>cells = [JNum 42], calls = []\<rparr>
     = \<lparr>cells = [JNum 42], calls = []\<rparr> \<and>
   handle_get (ReadonlyRef 0)
       (handle_assign (ReadonlyRef 0) (JNum 100) \<lparr>cells = [JNum 42], calls = []\<rparr>) = JNum 42 \<and>
   invoke example_fns (SetState 0) (JFun 0)
       (handle_assign (ReadonlyRef 0) (JNum 100) \<lparr>cells = [JNum 42], calls = []\<rparr>)
     = Inr \<lparr>cells = [JNum 43], calls = [(0, JNum 42)]\<rparr>"
proof -
  have a: "useRefState (Some (JNum 42)) None empty_world
             = ((ReadonlyRef 0, SetState 0), \<lparr>cells = [JNum 42], calls = []\<rparr>)"
    by (simp add: useRefState_def ref_def readonly_def empty_world_def)
  have b: "(None :: bool option) = None \<or> (None :: bool option) = Some True"
    by simp
  have c: "invoke example_fns (SetState 0) (JFun 0) \<lparr>cells = [JNum 42], calls = []\<rparr>
             = Inr \<lparr>cells = [JNum 43], calls = [(0, JNum 42)]\<rparr>"
    by (simp add: setState_def setterIsFunction_def set_value_def get_value_def example_fns_def)
  have d: "handle_get (ReadonlyRef 0) \<lparr>cells = [JNum 42], calls = []\<rparr> = JNum 42"
    by (simp add: get_value_def)
  from readonly_assignment_ignored [OF a b, of "JNum 100" "\<lparr>cells = [JNum 42], calls = []\<rparr>"
      example_fns "JFun 0"] a c d
  show ?thesis by simp
qed

end
